theory Spec2Isabelle
  imports Main "HOL-Library.Sublist"
begin

section \<open>MapDiff: the analyzer of mapdiff.py\<close>

text \<open>
  The analyzer of \<^verbatim>\<open>src/src/mapdiff.py\<close> reads two map files into Python dictionaries
  (\<^verbatim>\<open>Analyzer._build_map\<close>) and computes a dictionary of differences
  (\<^verbatim>\<open>Analyzer.compare\<close>). A Python \<^verbatim>\<open>str\<close> is modelled as a \<^typ>\<open>string\<close> (code points
  below 256), a \<^verbatim>\<open>dict\<close> from \<^verbatim>\<open>str\<close> to \<^verbatim>\<open>str\<close> as a map, an exception as a value of
  the type \<open>error\<close>. Calls of the logger only print; they are left out.
\<close>

subsection \<open>The methods of Python's str that the analyzer calls\<close>

text \<open>
  \<^verbatim>\<open>str.isspace\<close> on one character: the code points below 256 that Python's
  \<^verbatim>\<open>str.strip()\<close> removes (tab, line feed, vertical tab, form feed, carriage return, the
  separators 28 to 31, space, next line and no-break space).
\<close>

definition isspace :: "char \<Rightarrow> bool" where
  "isspace c = (of_char c \<in> set [9, 10, 11, 12, 13, 28, 29, 30, 31, 32, 133, 160 :: nat])"

text \<open>\<^verbatim>\<open>s.strip()\<close>: whitespace is removed at both ends.\<close>

definition str_strip :: "string \<Rightarrow> string" where
  "str_strip s = rev (dropWhile isspace (rev (dropWhile isspace s)))"

text \<open>
  \<^verbatim>\<open>s.split(sep)\<close> for a separator of one character: the string is cut at every
  occurrence of the separator; the result has one more field than there are separators,
  and fields may be empty. The last case distinction has a branch for the empty list only
  because HOL functions are total: the recursive call never returns it.
\<close>

fun str_split :: "char \<Rightarrow> string \<Rightarrow> string list" where
  "str_split sep [] = [[]]"
| "str_split sep (c # cs) =
     (if c = sep then [] # str_split sep cs
      else (case str_split sep cs of
              [] \<Rightarrow> [[c]]
            | field # fields \<Rightarrow> (c # field) # fields))"

text \<open>\<^verbatim>\<open>sep.join(fields)\<close>.\<close>

fun str_join :: "string \<Rightarrow> string list \<Rightarrow> string" where
  "str_join sep [] = []"
| "str_join sep [field] = field"
| "str_join sep (field # next_field # fields) = field @ sep @ str_join sep (next_field # fields)"

text \<open>
  \<^verbatim>\<open>s.replace(old, new)\<close>: every occurrence of \<open>old\<close> is replaced, scanning from the
  left, and the scan goes on behind the occurrence it has replaced (occurrences do not
  overlap). For an empty \<open>old\<close> Python puts \<open>new\<close> before every character and at the end.
\<close>

function str_replace :: "string \<Rightarrow> string \<Rightarrow> string \<Rightarrow> string" where
  "str_replace old new [] = (if old = [] then new else [])"
| "str_replace old new (c # cs) =
     (if old = [] then new @ c # str_replace old new cs
      else if prefix old (c # cs) then new @ str_replace old new (drop (length old) (c # cs))
      else c # str_replace old new cs)"
  by pat_completeness auto
termination
  by (relation "measure (\<lambda>(old, new, s). length s)") (auto simp: neq_Nil_conv)

subsection \<open>Errors, files and the analyzer object\<close>

text \<open>
  The exceptions the analyzer can meet: \<^verbatim>\<open>sys.exit(2)\<close> raises \<^verbatim>\<open>SystemExit\<close>, indexing an
  empty list raises \<^verbatim>\<open>IndexError\<close>, and calling \<^verbatim>\<open>items()\<close> on \<^verbatim>\<open>None\<close> raises
  \<^verbatim>\<open>AttributeError\<close>.
\<close>

datatype error = SystemExit int | IndexError | AttributeError

text \<open>
  The file system as the analyzer sees it: a path is absent, or it exists. What exists is a
  text file, given by the lines its iterator yields, or something that \<^verbatim>\<open>open\<close> or the
  iterator raises an exception for (a directory, a file without read permission).
\<close>

datatype node = TextFile "string list" | Unreadable

type_synonym filesystem = "string \<rightharpoonup> node"

type_synonym hash_map = "string \<rightharpoonup> string"

definition os_path_exists :: "filesystem \<Rightarrow> string \<Rightarrow> bool" where
  "os_path_exists fs path = (fs path \<noteq> None)"

text \<open>
  The fields of an \<^verbatim>\<open>Analyzer\<close>. A map is \<open>None\<close> when \<^verbatim>\<open>_build_map\<close> has caught an
  exception and returned nothing.
\<close>

record Analyzer =
  original_map :: "hash_map option"
  current_map :: "hash_map option"
  found_data :: "string option"

subsection \<open>Analyzer._build_map\<close>

text \<open>
  The body of the loop over the lines (lines 80 to 82): the key and the value that one line
  stores.
  \<^verbatim>\<open>
  current_file_data = line.split('>')[-1].split("|")
  current_file_name = f"{current_file_data[0].strip()}|"
  hash_map[current_file_name] = '|'.join(current_file_data).strip().replace(current_file_name, "")
  \<close>
\<close>

definition build_entry :: "string \<Rightarrow> error + (string \<times> string)" where
  "build_entry line =
     (case str_split CHR ''>'' line of
        [] \<Rightarrow> Inl IndexError
      | part # parts \<Rightarrow>
          (case str_split CHR ''|'' (last (part # parts)) of
             [] \<Rightarrow> Inl IndexError
           | first_field # more_fields \<Rightarrow>
               (let current_file_data = first_field # more_fields;
                    current_file_name = str_strip first_field @ ''|''
                in Inr (current_file_name,
                        str_replace current_file_name []
                          (str_strip (str_join ''|'' current_file_data))))))"

text \<open>The loop over the lines of the stream; an exception ends it.\<close>

fun build_loop :: "string list \<Rightarrow> hash_map \<Rightarrow> error + hash_map" where
  "build_loop [] hash_map = Inr hash_map"
| "build_loop (line # lines) hash_map =
     (case build_entry line of
        Inl e \<Rightarrow> Inl e
      | Inr (current_file_name, v) \<Rightarrow> build_loop lines (hash_map(current_file_name \<mapsto> v)))"

text \<open>
  \<^verbatim>\<open>_build_map\<close>: every exception (a missing or unreadable file as well) is caught and
  logged, and the method then returns \<^verbatim>\<open>None\<close>.
\<close>

definition build_map :: "filesystem \<Rightarrow> string \<Rightarrow> hash_map option" where
  "build_map fs filename =
     (case fs filename of
        None \<Rightarrow> None
      | Some Unreadable \<Rightarrow> None
      | Some (TextFile lines) \<Rightarrow>
          (case build_loop lines Map.empty of Inl e \<Rightarrow> None | Inr hash_map \<Rightarrow> Some hash_map))"

subsection \<open>Analyzer.__init__\<close>

text \<open>
  The constructor (lines 56 to 64): each path is looked up first, and a missing one ends the
  program with \<^verbatim>\<open>sys.exit(2)\<close> after an error message; only then are the two maps built.
\<close>

definition Analyzer_init :: "filesystem \<Rightarrow> string \<Rightarrow> string \<Rightarrow> error + Analyzer" where
  "Analyzer_init fs original_map_file current_map_file =
     (if \<not> os_path_exists fs original_map_file then Inl (SystemExit 2)
      else if \<not> os_path_exists fs current_map_file then Inl (SystemExit 2)
      else Inr \<lparr>original_map = build_map fs original_map_file,
                current_map = build_map fs current_map_file,
                found_data = None\<rparr>)"

subsection \<open>Analyzer.compare\<close>

text \<open>\<^verbatim>\<open>set(m.items())\<close>: the set of the (key, value) pairs of a dictionary.\<close>

definition items :: "hash_map \<Rightarrow> (string \<times> string) set" where
  "items m = Map.graph m"

text \<open>\<^verbatim>\<open>original_set ^ current_set\<close>: the symmetric difference of two sets.\<close>

definition set_xor :: "'a set \<Rightarrow> 'a set \<Rightarrow> 'a set" where
  "set_xor original_set current_set = (original_set - current_set) \<union> (current_set - original_set)"

text \<open>
  A \<^verbatim>\<open>for\<close> loop over a Python set visits every element once, in an order that the
  language leaves open (it follows the hashes of the elements, and the hash of a string
  changes from one process to the next). The order is a parameter of the model: a function
  \<open>iter\<close> from the set to the list of its elements as the loop meets them. \<open>iterates\<close>
  says that such a list is an iteration of the set.
\<close>

definition iterates :: "'a set \<Rightarrow> 'a list \<Rightarrow> bool" where
  "iterates S xs = (distinct xs \<and> set xs = S)"

text \<open>
  The loop of lines 117 to 119: a pair is stored unless its key is in the result already.
\<close>

fun compare_loop :: "(string \<times> string) list \<Rightarrow> hash_map \<Rightarrow> hash_map" where
  "compare_loop [] result_set = result_set"
| "compare_loop (entry_tuple # entries) result_set =
     (if result_set (fst entry_tuple) = None
      then compare_loop entries (result_set(fst entry_tuple \<mapsto> snd entry_tuple))
      else compare_loop entries result_set)"

text \<open>
  \<^verbatim>\<open>compare\<close> (lines 113 to 120). The three arguments of the method are never read. The
  result is a dictionary from a key to one value.
\<close>

definition compare ::
  "((string \<times> string) set \<Rightarrow> (string \<times> string) list) \<Rightarrow>
   Analyzer \<Rightarrow> string \<Rightarrow> string \<Rightarrow> bool \<Rightarrow> error + hash_map" where
  "compare iter self original_map_file current_map_file print_to_console =
     (case original_map self of
        None \<Rightarrow> Inl AttributeError
      | Some original \<Rightarrow>
          (case current_map self of
             None \<Rightarrow> Inl AttributeError
           | Some current \<Rightarrow>
               (let original_set = items original;
                    current_set = items current;
                    set_difference = set_xor original_set current_set
                in Inr (compare_loop (iter set_difference) Map.empty))))"

subsection \<open>The words of the specification\<close>

text \<open>
  The specification speaks of diff records of three kinds. The dictionary that
  \<^verbatim>\<open>compare\<close> returns has no such field; the type is declared to state what a
  classification of its entries would have to do.
\<close>

datatype kind = Added | Removed | Changed

text \<open>
  The entry of a line as the specification words it (section 4.1, steps 2 to 4): the body
  is what follows the last \<^verbatim>\<open>>\<close>; the key is the first field, trimmed, with the delimiter
  appended; the value is made of the remaining fields, joined with \<^verbatim>\<open>|\<close> and trimmed, and
  the raw key text is taken away where the value starts with it.
\<close>

definition spec_entry :: "string \<Rightarrow> string \<times> string" where
  "spec_entry line =
     (let body = last (str_split CHR ''>'' line);
          body_fields = str_split CHR ''|'' body;
          raw_key = str_strip (hd body_fields);
          joined = str_strip (str_join ''|'' (tl body_fields))
      in (raw_key @ ''|'',
          if prefix raw_key joined then drop (length raw_key) joined else joined))"

section \<open>Properties of the analyzer\<close>

subsection \<open>Splitting, joining and replacing\<close>

text \<open>
  A split never returns the empty list, so the \<^verbatim>\<open>IndexError\<close> branches of
  \<open>build_entry\<close> are never taken; joining the fields of a split with the separator
  gives the string back; the last field of a split is what follows the last separator.
\<close>

lemma str_split_not_Nil: "str_split sep s \<noteq> []"
  by (induction s) (auto split: list.splits)

lemma str_join_Cons:
  "str_join sep (x # xs) = (if xs = [] then x else x @ sep @ str_join sep xs)"
  by (cases xs) simp_all

lemma str_join_split: "str_join [sep] (str_split sep s) = s"
proof (induction s)
  case Nil
  show ?case by simp
next
  case (Cons c cs)
  obtain f fs where sp: "str_split sep cs = f # fs"
    using str_split_not_Nil [of sep cs] by (cases "str_split sep cs") auto
  show ?case using Cons.IH sp by (auto simp: str_join_Cons split: if_splits)
qed

lemma hd_str_split: "hd (str_split sep s) = takeWhile (\<lambda>c. c \<noteq> sep) s"
  by (induction s) (auto split: list.splits simp: str_split_not_Nil)

lemma last_str_split_notin: "sep \<notin> set (last (str_split sep s))"
  by (induction s) (auto split: list.splits simp: str_split_not_Nil)

lemma last_str_split_id: "sep \<notin> set s \<Longrightarrow> str_split sep s = [s]"
  by (induction s) (auto split: list.splits)

lemma str_split_append:
  "str_split sep (pre @ sep # rest) = str_split sep pre @ str_split sep rest"
proof (induction pre)
  case Nil
  show ?case by simp
next
  case (Cons c pre)
  obtain f fs where sp: "str_split sep pre = f # fs"
    using str_split_not_Nil [of sep pre] by (cases "str_split sep pre") auto
  show ?case using Cons.IH sp by simp
qed

lemma last_str_split_append:
  "last (str_split sep (pre @ sep # rest)) = last (str_split sep rest)"
  by (simp add: str_split_append str_split_not_Nil)

lemma last_str_split_suffix:
  "(sep \<notin> set s \<and> last (str_split sep s) = s) \<or>
   (\<exists>pre. s = pre @ sep # last (str_split sep s))"
proof (cases "sep \<in> set s")
  case False
  then show ?thesis by (simp add: last_str_split_id)
next
  case True
  then obtain pre rest where s: "s = pre @ sep # rest" and rest: "sep \<notin> set rest"
    by (auto dest: split_list_last)
  have "last (str_split sep s) = rest"
    using s rest by (simp add: last_str_split_append last_str_split_id)
  then show ?thesis using s by blast
qed

lemma str_replace_front:
  assumes "old \<noteq> []"
  shows "str_replace old new (old @ s) = new @ str_replace old new s"
proof -
  obtain c cs where cs: "old @ s = c # cs" using assms by (cases old) auto
  have "prefix old (c # cs)" using cs by (metis prefixI)
  moreover have "drop (length old) (c # cs) = s" using cs by (metis append_eq_conv_conj)
  ultimately have "str_replace old new (c # cs) = new @ str_replace old new s"
    using assms by simp
  then show ?thesis using cs by simp
qed

lemma isspace_not_separator: "isspace c \<Longrightarrow> c \<noteq> CHR ''>'' \<and> c \<noteq> CHR ''|''"
  by (auto simp: isspace_def)

lemma str_strip_blank: "\<forall>c \<in> set s. isspace c \<Longrightarrow> str_strip s = []"
proof -
  assume "\<forall>c \<in> set s. isspace c"
  then have d: "dropWhile isspace s = []" by simp
  show ?thesis unfolding str_strip_def d by simp
qed

subsection \<open>One line and the loop over the lines\<close>

text \<open>
  The entry of a line in closed form: since joining the fields gives the body back, the
  value is the trimmed body with the occurrences of the key removed. The loop never ends
  with an exception, and the keys of its result are the keys it started with and the keys
  of the lines.
\<close>

lemma build_entry_body:
  "build_entry line =
     Inr (str_strip (hd (str_split CHR ''|'' (last (str_split CHR ''>'' line)))) @ ''|'',
          str_replace (str_strip (hd (str_split CHR ''|'' (last (str_split CHR ''>'' line)))) @ ''|'') []
            (str_strip (last (str_split CHR ''>'' line))))"
proof -
  let ?body = "last (str_split CHR ''>'' line)"
  obtain part parts where p: "str_split CHR ''>'' line = part # parts"
    using str_split_not_Nil [of "CHR ''>''" line] by (cases "str_split CHR ''>'' line") auto
  obtain first_field more_fields where f: "str_split CHR ''|'' ?body = first_field # more_fields"
    using str_split_not_Nil [of "CHR ''|''" ?body] by (cases "str_split CHR ''|'' ?body") auto
  have j: "str_join ''|'' (first_field # more_fields) = ?body"
    using str_join_split [of "CHR ''|''" ?body] f by simp
  show ?thesis
    using p f j by (simp add: build_entry_def Let_def)
qed

lemma build_loop_total:
  "\<exists>hash_map'. build_loop lines hash_map = Inr hash_map' \<and>
     dom hash_map' = dom hash_map \<union> {k. \<exists>l \<in> set lines. \<exists>v. build_entry l = Inr (k, v)}"
proof (induction lines arbitrary: hash_map)
  case Nil
  show ?case by simp
next
  case (Cons line lines)
  obtain k v where e: "build_entry line = Inr (k, v)"
    using build_entry_body [of line] by blast
  obtain hash_map' where l: "build_loop lines (hash_map(k \<mapsto> v)) = Inr hash_map'"
    and d: "dom hash_map' = dom (hash_map(k \<mapsto> v)) \<union> {k. \<exists>l \<in> set lines. \<exists>v. build_entry l = Inr (k, v)}"
    using Cons.IH [of "hash_map(k \<mapsto> v)"] by blast
  have "build_loop (line # lines) hash_map = Inr hash_map'"
    using e l by simp
  moreover have "dom hash_map' = dom hash_map \<union> {k. \<exists>l \<in> set (line # lines). \<exists>v. build_entry l = Inr (k, v)}"
    using d e by auto
  ultimately show ?case by blast
qed

text \<open>
  What the loop stores: the value under a key is the value of the last line with that key,
  a key that no line has keeps its value, and every value in the result was there at the
  start or is the value of a line with that key.
\<close>

lemma build_loop_append:
  "build_loop (before @ after) hash_map =
     (case build_loop before hash_map of
        Inl e \<Rightarrow> Inl e
      | Inr hash_map' \<Rightarrow> build_loop after hash_map')"
proof (induction before arbitrary: hash_map)
  case Nil
  show ?case by simp
next
  case (Cons line before)
  obtain k v where e: "build_entry line = Inr (k, v)"
    using build_entry_body [of line] by blast
  have "build_loop ((line # before) @ after) hash_map
          = build_loop (before @ after) (hash_map(k \<mapsto> v))"
    using e by simp
  also have "\<dots> = (case build_loop before (hash_map(k \<mapsto> v)) of
                      Inl e \<Rightarrow> Inl e
                    | Inr hash_map' \<Rightarrow> build_loop after hash_map')"
    by (rule Cons.IH)
  also have "\<dots> = (case build_loop (line # before) hash_map of
                      Inl e \<Rightarrow> Inl e
                    | Inr hash_map' \<Rightarrow> build_loop after hash_map')"
    using e by simp
  finally show ?case .
qed

lemma build_loop_other_key:
  assumes "build_loop lines hash_map = Inr hash_map'"
    and "\<forall>l \<in> set lines. \<forall>v. build_entry l \<noteq> Inr (k, v)"
  shows "hash_map' k = hash_map k"
  using assms
proof (induction lines arbitrary: hash_map)
  case Nil
  then show ?case by simp
next
  case (Cons line lines)
  obtain k' v' where e: "build_entry line = Inr (k', v')"
    using build_entry_body [of line] by blast
  have ne: "k' \<noteq> k" using Cons.prems(2) e by auto
  have "build_loop lines (hash_map(k' \<mapsto> v')) = Inr hash_map'"
    using Cons.prems(1) e by simp
  moreover have "\<forall>l \<in> set lines. \<forall>v. build_entry l \<noteq> Inr (k, v)"
    using Cons.prems(2) by simp
  ultimately have "hash_map' k = (hash_map(k' \<mapsto> v')) k" by (rule Cons.IH)
  then show ?case using ne by simp
qed

lemma build_loop_last_line:
  assumes "build_loop (before @ line # after) hash_map = Inr hash_map'"
    and "build_entry line = Inr (k, v)"
    and "\<forall>l \<in> set after. \<forall>v'. build_entry l \<noteq> Inr (k, v')"
  shows "hash_map' k = Some v"
proof -
  obtain m where m: "build_loop before hash_map = Inr m"
    using build_loop_total [of before hash_map] by blast
  have "build_loop after (m(k \<mapsto> v)) = Inr hash_map'"
    using assms(1,2) m by (simp add: build_loop_append)
  then have "hash_map' k = (m(k \<mapsto> v)) k"
    using assms(3) by (rule build_loop_other_key)
  then show ?thesis by simp
qed

lemma build_loop_origin:
  assumes "build_loop lines hash_map = Inr hash_map'" and "hash_map' k = Some v"
  shows "hash_map k = Some v \<or> (\<exists>l \<in> set lines. build_entry l = Inr (k, v))"
  using assms
proof (induction lines arbitrary: hash_map)
  case Nil
  then show ?case by simp
next
  case (Cons line lines)
  obtain k' v' where e: "build_entry line = Inr (k', v')"
    using build_entry_body [of line] by blast
  have "build_loop lines (hash_map(k' \<mapsto> v')) = Inr hash_map'"
    using Cons.prems(1) e by simp
  from Cons.IH [OF this Cons.prems(2)]
  have "(hash_map(k' \<mapsto> v')) k = Some v \<or> (\<exists>l \<in> set lines. build_entry l = Inr (k, v))" .
  then show ?case using e by (auto split: if_splits)
qed

text \<open>A dictionary built from a file has finitely many keys.\<close>

lemma build_loop_finite_dom:
  assumes "build_loop lines hash_map = Inr hash_map'" and "finite (dom hash_map)"
  shows "finite (dom hash_map')"
  using assms
proof (induction lines arbitrary: hash_map)
  case Nil
  then show ?case by simp
next
  case (Cons line lines)
  then show ?case by (auto split: sum.splits)
qed

lemma build_map_finite_dom: "build_map fs filename = Some hash_map \<Longrightarrow> finite (dom hash_map)"
  by (auto simp: build_map_def split: option.splits node.splits sum.splits
      dest: build_loop_finite_dom)

subsection \<open>The loop of compare\<close>

text \<open>
  The loop stores a pair unless its key is stored already: started on the empty
  dictionary it returns, for every key, the value of the first pair with that key.
\<close>

lemma compare_loop_lookup:
  "compare_loop xs r k = (case r k of None \<Rightarrow> map_of xs k | Some w \<Rightarrow> Some w)"
  by (induction xs arbitrary: r) (auto split: option.splits)

lemma compare_loop_empty: "compare_loop xs Map.empty = map_of xs"
  by (rule ext) (simp add: compare_loop_lookup)

lemma map_of_find:
  "map_of xs k = map_option snd (find (\<lambda>e. fst e = k) xs)"
  by (induction xs) auto

lemma compare_Inr:
  assumes "original_map self = Some original" and "current_map self = Some current"
  shows "compare iter self f g p = Inr (map_of (iter (set_xor (items original) (items current))))"
  using assms by (simp add: compare_def compare_loop_empty)

text \<open>
  The pairs of the symmetric difference, and what an iteration of it has for a key.
\<close>

lemma in_set_xor_items:
  "(k, v) \<in> set_xor (items original) (items current) \<longleftrightarrow>
     (original k = Some v \<and> current k \<noteq> Some v) \<or> (current k = Some v \<and> original k \<noteq> Some v)"
  by (auto simp: set_xor_def items_def graph_def)

lemma items_empty: "items Map.empty = {}"
  by (simp add: items_def)

lemma items_single: "items [k \<mapsto> v] = {(k, v)}"
  by (auto simp: items_def graph_def split: if_splits)

lemma set_xor_simps:
  "set_xor A {} = A" "set_xor {} A = A" "set_xor A A = {}"
  by (auto simp: set_xor_def)

lemma set_xor_commute: "set_xor A B = set_xor B A"
  by (auto simp: set_xor_def)

lemma iteration_lookup_Some:
  assumes "iterates (set_xor (items original) (items current)) xs"
    and "map_of xs k = Some v"
  shows "(original k = Some v \<and> current k \<noteq> Some v) \<or> (current k = Some v \<and> original k \<noteq> Some v)"
proof -
  from assms(2) have "(k, v) \<in> set xs" by (rule map_of_SomeD)
  then have "(k, v) \<in> set_xor (items original) (items current)"
    using assms(1) by (simp add: iterates_def)
  then show ?thesis by (simp add: in_set_xor_items)
qed

lemma iteration_lookup_None:
  assumes "iterates (set_xor (items original) (items current)) xs"
  shows "map_of xs k = None \<longleftrightarrow> original k = current k"
proof
  assume "map_of xs k = None"
  then have "k \<notin> fst ` set xs" by (simp add: map_of_eq_None_iff)
  then have no: "\<And>v. (k, v) \<notin> set_xor (items original) (items current)"
    using assms by (force simp: iterates_def)
  show "original k = current k"
  proof (cases "original k")
    case None
    then show ?thesis using no [of "the (current k)"]
      by (cases "current k") (auto simp: in_set_xor_items)
  next
    case (Some a)
    then show ?thesis using no [of a] by (auto simp: in_set_xor_items)
  qed
next
  assume eq: "original k = current k"
  show "map_of xs k = None"
  proof (cases "map_of xs k")
    case None
    then show ?thesis .
  next
    case (Some v)
    from iteration_lookup_Some [OF assms Some] eq show ?thesis by auto
  qed
qed

lemma iteration_lookup_original_only:
  assumes "iterates (set_xor (items original) (items current)) xs"
    and "original k = Some v" and "current k = None"
  shows "map_of xs k = Some v"
proof (cases "map_of xs k")
  case None
  then show ?thesis using iteration_lookup_None [OF assms(1), of k] assms(2,3) by simp
next
  case (Some w)
  from iteration_lookup_Some [OF assms(1) Some] assms(2,3) Some show ?thesis by auto
qed

lemma iteration_lookup_current_only:
  assumes "iterates (set_xor (items original) (items current)) xs"
    and "current k = Some v" and "original k = None"
  shows "map_of xs k = Some v"
proof (cases "map_of xs k")
  case None
  then show ?thesis using iteration_lookup_None [OF assms(1), of k] assms(2,3) by simp
next
  case (Some w)
  from iteration_lookup_Some [OF assms(1) Some] assms(2,3) Some show ?thesis by auto
qed

lemma iteration_lookup_both:
  assumes "iterates (set_xor (items original) (items current)) xs"
    and "original k = Some a" and "current k = Some b" and "a \<noteq> b"
  shows "map_of xs k = Some a \<or> map_of xs k = Some b"
proof (cases "map_of xs k")
  case None
  then show ?thesis using iteration_lookup_None [OF assms(1), of k] assms(2,3,4) by simp
next
  case (Some w)
  from iteration_lookup_Some [OF assms(1) Some] assms(2,3) Some show ?thesis by auto
qed

lemma iteration_dom:
  assumes "iterates (set_xor (items original) (items current)) xs"
  shows "dom (map_of xs) = {k. original k \<noteq> current k}"
  using iteration_lookup_None [OF assms] by (auto simp: dom_def)

text \<open>
  Dictionaries are finite, so the symmetric difference of their items has an iteration:
  the hypothesis \<open>iterates\<close> of the theorems below excludes no pair of dictionaries.
\<close>

lemma iteration_exists:
  assumes "finite (dom original)" and "finite (dom current)"
  shows "\<exists>xs. iterates (set_xor (items original) (items current)) xs"
proof -
  have "finite (items original)" "finite (items current)"
    using assms by (simp_all add: items_def graph_eq_to_snd_dom)
  then have "finite (set_xor (items original) (items current))"
    by (simp add: set_xor_def)
  then show ?thesis
    unfolding iterates_def using finite_distinct_list by blast
qed

lemma iterates_pair_changed:
  assumes "a \<noteq> b"
  shows "iterates (set_xor (items [k \<mapsto> a]) (items [k \<mapsto> b])) [(k, a), (k, b)]"
    and "iterates (set_xor (items [k \<mapsto> a]) (items [k \<mapsto> b])) [(k, b), (k, a)]"
  using assms by (auto simp: iterates_def in_set_xor_items split: if_splits)

section \<open>The claims\<close>

subsection \<open>C1: a key in both maps with different values\<close>

text \<open>
  Claim C1 says that for a key \<open>k\<close> in both maps with different values the result of
  \<^verbatim>\<open>compare\<close> has exactly one record for \<open>k\<close>, classified as Changed, with both the
  original and the current value, and that the recorded value never depends on the
  iteration order. The code returns a dictionary from a key to one value. What holds:
  the result has one entry for \<open>k\<close>; its value is the original value or the current
  value, namely the value of the first pair with key \<open>k\<close> that the iteration over the
  symmetric difference yields; the entry has no classification.
\<close>

theorem compare_changed_key:
  assumes "original_map self = Some original" and "current_map self = Some current"
    and "iterates (set_xor (items original) (items current))
           (iter (set_xor (items original) (items current)))"
    and "original k = Some a" and "current k = Some b" and "a \<noteq> b"
  shows "\<exists>result_set. compare iter self original_map_file current_map_file print_to_console
             = Inr result_set \<and>
           (result_set k = Some a \<or> result_set k = Some b) \<and>
           result_set k = map_option snd
             (find (\<lambda>entry_tuple. fst entry_tuple = k)
                (iter (set_xor (items original) (items current))))"
proof -
  let ?xs = "iter (set_xor (items original) (items current))"
  have r: "compare iter self original_map_file current_map_file print_to_console
             = Inr (map_of ?xs)"
    using assms(1,2) by (rule compare_Inr)
  have "map_of ?xs k = Some a \<or> map_of ?xs k = Some b"
    using assms(3-6) by (rule iteration_lookup_both)
  moreover have "map_of ?xs k = map_option snd (find (\<lambda>entry_tuple. fst entry_tuple = k) ?xs)"
    by (rule map_of_find)
  ultimately show ?thesis using r by blast
qed

text \<open>
  The theorem at the two map files of a changed checksum, the pair of the current map
  coming first.
\<close>

theorem compare_changed_key_witness:
  "\<exists>result_set.
     compare (\<lambda>S. [(''/etc/hosts|'', ''4096|5d41''), (''/etc/hosts|'', ''4096|d41d'')])
       \<lparr>original_map = Some [''/etc/hosts|'' \<mapsto> ''4096|d41d''],
        current_map = Some [''/etc/hosts|'' \<mapsto> ''4096|5d41''],
        found_data = None\<rparr> ''original.map'' ''current.map'' False
     = Inr result_set \<and>
     result_set ''/etc/hosts|'' = Some ''4096|5d41''"
proof -
  let ?A = "[''/etc/hosts|'' \<mapsto> ''4096|d41d'']"
  let ?B = "[''/etc/hosts|'' \<mapsto> ''4096|5d41'']"
  let ?self = "\<lparr>original_map = Some ?A, current_map = Some ?B, found_data = None\<rparr>"
  let ?iter = "\<lambda>S :: (string \<times> string) set.
     [(''/etc/hosts|'', ''4096|5d41''), (''/etc/hosts|'', ''4096|d41d'')]"
  have ne: "''4096|d41d'' \<noteq> ''4096|5d41''" by simp
  have it: "iterates (set_xor (items ?A) (items ?B)) (?iter (set_xor (items ?A) (items ?B)))"
    using iterates_pair_changed(2) [OF ne, of "''/etc/hosts|''"] by simp
  from compare_changed_key [of ?self ?A ?B ?iter "''/etc/hosts|''" "''4096|d41d''" "''4096|5d41''"
      "''original.map''" "''current.map''" False, OF _ _ it _ _ ne]
  have "\<exists>result_set. compare ?iter ?self ''original.map'' ''current.map'' False = Inr result_set \<and>
          (result_set ''/etc/hosts|'' = Some ''4096|d41d'' \<or>
           result_set ''/etc/hosts|'' = Some ''4096|5d41'') \<and>
          result_set ''/etc/hosts|'' = Some ''4096|5d41''"
    by simp
  then show ?thesis by blast
qed

text \<open>
  The claim as stated fails: the two map files below differ in the checksum of
  \<^verbatim>\<open>/etc/hosts\<close>. Both orders are iterations of the symmetric difference; with the one
  the result records the current value only, with the other the original value only.
\<close>

theorem compare_changed_key_counterexample:
  "Analyzer_init
     [''original.map'' \<mapsto> TextFile [''2021-01-01 > /etc/hosts|4096|d41d'' @ [CHR 0x0A]],
      ''current.map'' \<mapsto> TextFile [''2021-01-02 > /etc/hosts|4096|5d41'' @ [CHR 0x0A]]]
     ''original.map'' ''current.map''
   = Inr \<lparr>original_map = Some [''/etc/hosts|'' \<mapsto> ''4096|d41d''],
          current_map = Some [''/etc/hosts|'' \<mapsto> ''4096|5d41''],
          found_data = None\<rparr> \<and>
   iterates (set_xor (items [''/etc/hosts|'' \<mapsto> ''4096|d41d''])
                     (items [''/etc/hosts|'' \<mapsto> ''4096|5d41'']))
     [(''/etc/hosts|'', ''4096|5d41''), (''/etc/hosts|'', ''4096|d41d'')] \<and>
   compare (\<lambda>S. [(''/etc/hosts|'', ''4096|5d41''), (''/etc/hosts|'', ''4096|d41d'')])
     \<lparr>original_map = Some [''/etc/hosts|'' \<mapsto> ''4096|d41d''],
      current_map = Some [''/etc/hosts|'' \<mapsto> ''4096|5d41''],
      found_data = None\<rparr> ''original.map'' ''current.map'' False
   = Inr [''/etc/hosts|'' \<mapsto> ''4096|5d41''] \<and>
   iterates (set_xor (items [''/etc/hosts|'' \<mapsto> ''4096|d41d''])
                     (items [''/etc/hosts|'' \<mapsto> ''4096|5d41'']))
     [(''/etc/hosts|'', ''4096|d41d''), (''/etc/hosts|'', ''4096|5d41'')] \<and>
   compare (\<lambda>S. [(''/etc/hosts|'', ''4096|d41d''), (''/etc/hosts|'', ''4096|5d41'')])
     \<lparr>original_map = Some [''/etc/hosts|'' \<mapsto> ''4096|d41d''],
      current_map = Some [''/etc/hosts|'' \<mapsto> ''4096|5d41''],
      found_data = None\<rparr> ''original.map'' ''current.map'' False
   = Inr [''/etc/hosts|'' \<mapsto> ''4096|d41d'']"
proof -
  have e1: "build_entry (''2021-01-01 > /etc/hosts|4096|d41d'' @ [CHR 0x0A])
              = Inr (''/etc/hosts|'', ''4096|d41d'')"
    by (simp add: build_entry_def str_strip_def isspace_def)
  have e2: "build_entry (''2021-01-02 > /etc/hosts|4096|5d41'' @ [CHR 0x0A])
              = Inr (''/etc/hosts|'', ''4096|5d41'')"
    by (simp add: build_entry_def str_strip_def isspace_def)
  have init: "Analyzer_init
     [''original.map'' \<mapsto> TextFile [''2021-01-01 > /etc/hosts|4096|d41d'' @ [CHR 0x0A]],
      ''current.map'' \<mapsto> TextFile [''2021-01-02 > /etc/hosts|4096|5d41'' @ [CHR 0x0A]]]
     ''original.map'' ''current.map''
   = Inr \<lparr>original_map = Some [''/etc/hosts|'' \<mapsto> ''4096|d41d''],
          current_map = Some [''/etc/hosts|'' \<mapsto> ''4096|5d41''],
          found_data = None\<rparr>"
    using e1 e2 by (simp add: Analyzer_init_def os_path_exists_def build_map_def)
  have ne: "''4096|d41d'' \<noteq> ''4096|5d41''" by simp
  have c1: "compare (\<lambda>S. [(''/etc/hosts|'', ''4096|5d41''), (''/etc/hosts|'', ''4096|d41d'')])
     \<lparr>original_map = Some [''/etc/hosts|'' \<mapsto> ''4096|d41d''],
      current_map = Some [''/etc/hosts|'' \<mapsto> ''4096|5d41''],
      found_data = None\<rparr> ''original.map'' ''current.map'' False
   = Inr [''/etc/hosts|'' \<mapsto> ''4096|5d41'']"
    by (simp add: compare_def)
  have c2: "compare (\<lambda>S. [(''/etc/hosts|'', ''4096|d41d''), (''/etc/hosts|'', ''4096|5d41'')])
     \<lparr>original_map = Some [''/etc/hosts|'' \<mapsto> ''4096|d41d''],
      current_map = Some [''/etc/hosts|'' \<mapsto> ''4096|5d41''],
      found_data = None\<rparr> ''original.map'' ''current.map'' False
   = Inr [''/etc/hosts|'' \<mapsto> ''4096|d41d'']"
    by (simp add: compare_def)
  show ?thesis
    using init c1 c2 iterates_pair_changed [OF ne, of "''/etc/hosts|''"] by simp
qed

subsection \<open>C2: a key in exactly one map\<close>

text \<open>
  Claim C2 says that for a key \<open>k\<close> in exactly one map the result has a record for
  \<open>k\<close> of the corresponding kind (Added if only in current, Removed if only in
  original) with that map's value for \<open>k\<close>. The value part holds: the result has
  the entry of \<open>k\<close> with that map's value, whatever the iteration order. The result
  has no kind.
\<close>

theorem compare_one_sided_key:
  assumes "original_map self = Some original" and "current_map self = Some current"
    and "iterates (set_xor (items original) (items current))
           (iter (set_xor (items original) (items current)))"
  shows "\<exists>result_set. compare iter self original_map_file current_map_file print_to_console
             = Inr result_set \<and>
           (\<forall>k v. original k = Some v \<and> current k = None \<longrightarrow> result_set k = Some v) \<and>
           (\<forall>k v. current k = Some v \<and> original k = None \<longrightarrow> result_set k = Some v)"
proof -
  let ?xs = "iter (set_xor (items original) (items current))"
  have r: "compare iter self original_map_file current_map_file print_to_console
             = Inr (map_of ?xs)"
    using assms(1,2) by (rule compare_Inr)
  have "\<forall>k v. original k = Some v \<and> current k = None \<longrightarrow> map_of ?xs k = Some v"
    using iteration_lookup_original_only [OF assms(3)] by blast
  moreover have "\<forall>k v. current k = Some v \<and> original k = None \<longrightarrow> map_of ?xs k = Some v"
    using iteration_lookup_current_only [OF assms(3)] by blast
  ultimately show ?thesis using r by blast
qed

text \<open>
  The theorem at a key that only the original map has.
\<close>

theorem compare_one_sided_key_witness:
  "\<exists>result_set.
     compare (\<lambda>S. [(''/var/log/old.log|'', ''7|abc'')])
       \<lparr>original_map = Some [''/var/log/old.log|'' \<mapsto> ''7|abc''],
        current_map = Some Map.empty, found_data = None\<rparr>
       ''original.map'' ''current.map'' False = Inr result_set \<and>
     result_set ''/var/log/old.log|'' = Some ''7|abc''"
proof -
  let ?A = "[''/var/log/old.log|'' \<mapsto> ''7|abc'']"
  let ?self = "\<lparr>original_map = Some ?A, current_map = Some Map.empty, found_data = None\<rparr>"
  let ?iter = "\<lambda>S :: (string \<times> string) set. [(''/var/log/old.log|'', ''7|abc'')]"
  have it: "iterates (set_xor (items ?A) (items Map.empty))
              (?iter (set_xor (items ?A) (items Map.empty)))"
    by (simp add: iterates_def items_single items_empty set_xor_simps)
  from compare_one_sided_key [of ?self ?A Map.empty ?iter
      "''original.map''" "''current.map''" False, OF _ _ it]
  show ?thesis by auto
qed

text \<open>
  The claim as stated fails: a key that only the original map has and the same key with
  the same value that only the current map has give the same result, so nothing that is
  read from the result can be Removed in the one case and Added in the other.
\<close>

theorem compare_one_sided_key_counterexample:
  "iterates (set_xor (items [''/var/log/old.log|'' \<mapsto> ''7|abc'']) (items Map.empty))
     [(''/var/log/old.log|'', ''7|abc'')] \<and>
   iterates (set_xor (items Map.empty) (items [''/var/log/old.log|'' \<mapsto> ''7|abc'']))
     [(''/var/log/old.log|'', ''7|abc'')] \<and>
   \<not> (\<exists>kind_of :: error + hash_map \<Rightarrow> string \<Rightarrow> kind.
        kind_of (compare (\<lambda>S. [(''/var/log/old.log|'', ''7|abc'')])
                   \<lparr>original_map = Some [''/var/log/old.log|'' \<mapsto> ''7|abc''],
                    current_map = Some Map.empty, found_data = None\<rparr>
                   ''original.map'' ''current.map'' False)
          ''/var/log/old.log|'' = Removed \<and>
        kind_of (compare (\<lambda>S. [(''/var/log/old.log|'', ''7|abc'')])
                   \<lparr>original_map = Some Map.empty,
                    current_map = Some [''/var/log/old.log|'' \<mapsto> ''7|abc''],
                    found_data = None\<rparr>
                   ''original.map'' ''current.map'' False)
          ''/var/log/old.log|'' = Added)"
proof -
  have "compare (\<lambda>S. [(''/var/log/old.log|'', ''7|abc'')])
          \<lparr>original_map = Some [''/var/log/old.log|'' \<mapsto> ''7|abc''],
           current_map = Some Map.empty, found_data = None\<rparr>
          ''original.map'' ''current.map'' False
      = compare (\<lambda>S. [(''/var/log/old.log|'', ''7|abc'')])
          \<lparr>original_map = Some Map.empty,
           current_map = Some [''/var/log/old.log|'' \<mapsto> ''7|abc''],
           found_data = None\<rparr>
          ''original.map'' ''current.map'' False"
    by (simp add: compare_def)
  then show ?thesis
    by (simp add: iterates_def items_single items_empty set_xor_simps)
qed

subsection \<open>C3: two runs on the same maps\<close>

text \<open>
  Claim C3 says that two runs of \<^verbatim>\<open>compare\<close> on the same pair of maps give the same
  set of records, whatever the iteration order. What holds for two iteration orders: both
  results have the same keys, the keys at which the two maps differ, and the same value for
  every key that one of the maps does not have. (For a key in both maps the two results
  can differ, see C1.)
\<close>

theorem compare_runs_agree:
  assumes "original_map self = Some original" and "current_map self = Some current"
    and "iterates (set_xor (items original) (items current))
           (iter (set_xor (items original) (items current)))"
    and "iterates (set_xor (items original) (items current))
           (iter' (set_xor (items original) (items current)))"
  shows "\<exists>result_set result_set'.
           compare iter self original_map_file current_map_file print_to_console
             = Inr result_set \<and>
           compare iter' self original_map_file current_map_file print_to_console
             = Inr result_set' \<and>
           dom result_set = {k. original k \<noteq> current k} \<and>
           dom result_set' = {k. original k \<noteq> current k} \<and>
           (\<forall>k. original k = None \<or> current k = None \<longrightarrow> result_set k = result_set' k)"
proof -
  let ?S = "set_xor (items original) (items current)"
  have r: "compare iter self original_map_file current_map_file print_to_console
             = Inr (map_of (iter ?S))"
    using assms(1,2) by (rule compare_Inr)
  have r': "compare iter' self original_map_file current_map_file print_to_console
             = Inr (map_of (iter' ?S))"
    using assms(1,2) by (rule compare_Inr)
  have agree: "map_of (iter ?S) k = map_of (iter' ?S) k"
    if "original k = None \<or> current k = None" for k
  proof (cases "original k = current k")
    case True
    then show ?thesis
      using iteration_lookup_None [OF assms(3), of k] iteration_lookup_None [OF assms(4), of k]
      by simp
  next
    case False
    from that show ?thesis
    proof
      assume o: "original k = None"
      then obtain v where c: "current k = Some v" using False by (cases "current k") auto
      show ?thesis
        using iteration_lookup_current_only [OF assms(3) c o]
          iteration_lookup_current_only [OF assms(4) c o] by simp
    next
      assume c: "current k = None"
      then obtain v where o: "original k = Some v" using False by (cases "original k") auto
      show ?thesis
        using iteration_lookup_original_only [OF assms(3) o c]
          iteration_lookup_original_only [OF assms(4) o c] by simp
    qed
  qed
  show ?thesis
    using r r' iteration_dom [OF assms(3)] iteration_dom [OF assms(4)] agree by blast
qed

text \<open>
  The theorem at two iteration orders of the same symmetric difference.
\<close>

theorem compare_runs_agree_witness:
  "\<exists>result_set result_set'.
     compare (\<lambda>S. [(''/a|'', ''1''), (''/a|'', ''2''), (''/b|'', ''3'')])
       \<lparr>original_map = Some [''/a|'' \<mapsto> ''1'', ''/b|'' \<mapsto> ''3''],
        current_map = Some [''/a|'' \<mapsto> ''2''], found_data = None\<rparr>
       ''original.map'' ''current.map'' False = Inr result_set \<and>
     compare (\<lambda>S. [(''/b|'', ''3''), (''/a|'', ''2''), (''/a|'', ''1'')])
       \<lparr>original_map = Some [''/a|'' \<mapsto> ''1'', ''/b|'' \<mapsto> ''3''],
        current_map = Some [''/a|'' \<mapsto> ''2''], found_data = None\<rparr>
       ''original.map'' ''current.map'' False = Inr result_set' \<and>
     dom result_set = dom result_set' \<and>
     result_set ''/b|'' = result_set' ''/b|''"
proof -
  let ?A = "[''/a|'' \<mapsto> ''1'', ''/b|'' \<mapsto> ''3'']"
  let ?B = "[''/a|'' \<mapsto> ''2'']"
  let ?self = "\<lparr>original_map = Some ?A, current_map = Some ?B, found_data = None\<rparr>"
  let ?iter = "\<lambda>S :: (string \<times> string) set. [(''/a|'', ''1''), (''/a|'', ''2''), (''/b|'', ''3'')]"
  let ?iter' = "\<lambda>S :: (string \<times> string) set. [(''/b|'', ''3''), (''/a|'', ''2''), (''/a|'', ''1'')]"
  have it: "iterates (set_xor (items ?A) (items ?B)) (?iter (set_xor (items ?A) (items ?B)))"
    by (auto simp: iterates_def in_set_xor_items split: if_splits)
  have it': "iterates (set_xor (items ?A) (items ?B)) (?iter' (set_xor (items ?A) (items ?B)))"
    by (auto simp: iterates_def in_set_xor_items split: if_splits)
  have b: "?A ''/b|'' = None \<or> ?B ''/b|'' = None" by simp
  from compare_runs_agree [of ?self ?A ?B ?iter ?iter'
      "''original.map''" "''current.map''" False, OF _ _ it it']
  obtain result_set result_set' where
    r: "compare ?iter ?self ''original.map'' ''current.map'' False = Inr result_set"
    and r': "compare ?iter' ?self ''original.map'' ''current.map'' False = Inr result_set'"
    and d: "dom result_set = {k. ?A k \<noteq> ?B k}"
    and d': "dom result_set' = {k. ?A k \<noteq> ?B k}"
    and a: "\<forall>k. ?A k = None \<or> ?B k = None \<longrightarrow> result_set k = result_set' k"
    by auto
  have "dom result_set = dom result_set'" using d d' by simp
  moreover have "result_set ''/b|'' = result_set' ''/b|''" using a b by blast
  ultimately show ?thesis using r r' by blast
qed

text \<open>
  The claim as stated fails: for one key with two different values the two iteration
  orders give two different results.
\<close>

theorem compare_runs_agree_counterexample:
  "\<not> (\<forall>iter iter'.
        iterates (set_xor (items [''/a|'' \<mapsto> ''1'']) (items [''/a|'' \<mapsto> ''2'']))
          (iter (set_xor (items [''/a|'' \<mapsto> ''1'']) (items [''/a|'' \<mapsto> ''2'']))) \<and>
        iterates (set_xor (items [''/a|'' \<mapsto> ''1'']) (items [''/a|'' \<mapsto> ''2'']))
          (iter' (set_xor (items [''/a|'' \<mapsto> ''1'']) (items [''/a|'' \<mapsto> ''2'']))) \<longrightarrow>
        compare iter \<lparr>original_map = Some [''/a|'' \<mapsto> ''1''],
                      current_map = Some [''/a|'' \<mapsto> ''2''], found_data = None\<rparr>
          ''original.map'' ''current.map'' False
        = compare iter' \<lparr>original_map = Some [''/a|'' \<mapsto> ''1''],
                         current_map = Some [''/a|'' \<mapsto> ''2''], found_data = None\<rparr>
          ''original.map'' ''current.map'' False)"
proof
  let ?self = "\<lparr>original_map = Some [''/a|'' \<mapsto> ''1''],
               current_map = Some [''/a|'' \<mapsto> ''2''], found_data = None\<rparr>"
  let ?S = "set_xor (items [''/a|'' \<mapsto> ''1'']) (items [''/a|'' \<mapsto> ''2''])"
  let ?iter = "\<lambda>S :: (string \<times> string) set. [(''/a|'', ''1''), (''/a|'', ''2'')]"
  let ?iter' = "\<lambda>S :: (string \<times> string) set. [(''/a|'', ''2''), (''/a|'', ''1'')]"
  assume all: "\<forall>iter iter'. iterates ?S (iter ?S) \<and> iterates ?S (iter' ?S) \<longrightarrow>
    compare iter ?self ''original.map'' ''current.map'' False
    = compare iter' ?self ''original.map'' ''current.map'' False"
  have ne: "''1'' \<noteq> ''2''" by simp
  have its: "iterates ?S (?iter ?S) \<and> iterates ?S (?iter' ?S)"
    using iterates_pair_changed [OF ne, of "''/a|''"] by simp
  have "compare ?iter ?self ''original.map'' ''current.map'' False
    = compare ?iter' ?self ''original.map'' ''current.map'' False"
    using all [rule_format, of ?iter ?iter'] its by simp
  then have "[''/a|'' \<mapsto> ''1''] = [''/a|'' \<mapsto> ''2'']"
    by (simp add: compare_def)
  then have "[''/a|'' \<mapsto> ''1''] ''/a|'' = [''/a|'' \<mapsto> ''2''] ''/a|''"
    by (rule arg_cong)
  then show False by simp
qed

subsection \<open>C4: a key in both maps with equal values\<close>

text \<open>
  Claim C4: a key that both maps have with equal values is never in the result of
  \<^verbatim>\<open>compare\<close>; in particular the result of comparing a map with itself is empty.
\<close>

theorem compare_equal_values_absent:
  assumes "original_map self = Some original" and "current_map self = Some current"
    and "iterates (set_xor (items original) (items current))
           (iter (set_xor (items original) (items current)))"
  shows "\<exists>result_set. compare iter self original_map_file current_map_file print_to_console
             = Inr result_set \<and>
           (\<forall>k v. original k = Some v \<and> current k = Some v \<longrightarrow> result_set k = None) \<and>
           (original = current \<longrightarrow> result_set = Map.empty)"
proof -
  let ?xs = "iter (set_xor (items original) (items current))"
  have r: "compare iter self original_map_file current_map_file print_to_console
             = Inr (map_of ?xs)"
    using assms(1,2) by (rule compare_Inr)
  have none: "\<And>k. original k = current k \<Longrightarrow> map_of ?xs k = None"
    using iteration_lookup_None [OF assms(3)] by simp
  have "\<forall>k v. original k = Some v \<and> current k = Some v \<longrightarrow> map_of ?xs k = None"
    using none by simp
  moreover have "original = current \<longrightarrow> map_of ?xs = Map.empty"
    using none by (auto simp: fun_eq_iff)
  ultimately show ?thesis using r by blast
qed

text \<open>
  The theorem at a map compared with itself.
\<close>

theorem compare_equal_values_absent_witness:
  "(\<exists>result_set.
      compare (\<lambda>S. [(''/tmp/new.txt|'', ''10|abc'')])
        \<lparr>original_map = Some [''/etc/hosts|'' \<mapsto> ''4096|d41d''],
         current_map = Some [''/etc/hosts|'' \<mapsto> ''4096|d41d'',
                             ''/tmp/new.txt|'' \<mapsto> ''10|abc''],
         found_data = None\<rparr> ''original.map'' ''current.map'' False
      = Inr result_set \<and>
      result_set ''/etc/hosts|'' = None) \<and>
   compare (\<lambda>S. [])
     \<lparr>original_map = Some [''/etc/hosts|'' \<mapsto> ''4096|d41d''],
      current_map = Some [''/etc/hosts|'' \<mapsto> ''4096|d41d''],
      found_data = None\<rparr> ''original.map'' ''original.map'' False
   = Inr Map.empty"
proof -
  let ?M = "[''/etc/hosts|'' \<mapsto> ''4096|d41d'']"
  let ?N = "[''/etc/hosts|'' \<mapsto> ''4096|d41d'', ''/tmp/new.txt|'' \<mapsto> ''10|abc'']"
  let ?self = "\<lparr>original_map = Some ?M, current_map = Some ?N, found_data = None\<rparr>"
  let ?same = "\<lparr>original_map = Some ?M, current_map = Some ?M, found_data = None\<rparr>"
  let ?iter = "\<lambda>S :: (string \<times> string) set. [(''/tmp/new.txt|'', ''10|abc'')]"
  let ?none = "\<lambda>S :: (string \<times> string) set. [] :: (string \<times> string) list"
  have it: "iterates (set_xor (items ?M) (items ?N)) (?iter (set_xor (items ?M) (items ?N)))"
    by (auto simp: iterates_def in_set_xor_items split: if_splits)
  have it0: "iterates (set_xor (items ?M) (items ?M)) (?none (set_xor (items ?M) (items ?M)))"
    by (simp add: iterates_def set_xor_simps)
  have both: "?M ''/etc/hosts|'' = Some ''4096|d41d'' \<and> ?N ''/etc/hosts|'' = Some ''4096|d41d''"
    by simp
  from compare_equal_values_absent [of ?self ?M ?N ?iter
      "''original.map''" "''current.map''" False, OF _ _ it]
  obtain result_set where
    r: "compare ?iter ?self ''original.map'' ''current.map'' False = Inr result_set"
    and e: "\<forall>k v. ?M k = Some v \<and> ?N k = Some v \<longrightarrow> result_set k = None"
    by auto
  have a: "result_set ''/etc/hosts|'' = None" using e both by blast
  from compare_equal_values_absent [of ?same ?M ?M ?none
      "''original.map''" "''original.map''" False, OF _ _ it0]
  have b: "compare ?none ?same ''original.map'' ''original.map'' False = Inr Map.empty"
    by auto
  from r a b show ?thesis by blast
qed

subsection \<open>C5: the two directions\<close>

text \<open>
  Claim C5 says that \<^verbatim>\<open>compare(A, B)\<close> and \<^verbatim>\<open>compare(B, A)\<close> have the same keys, that
  an Added record of the one is a Removed record of the other with the same value, and
  that the original and current values of a Changed record swap. What holds: the two
  results have the same keys; for a key in exactly one of the maps both results have that
  map's value; for a key in both maps with different values each result has one of the two
  values. The results have no kinds, and one value for a key.
\<close>

theorem compare_swap_directions:
  assumes "original_map self = Some A" and "current_map self = Some B"
    and "original_map self' = Some B" and "current_map self' = Some A"
    and "iterates (set_xor (items A) (items B)) (iter (set_xor (items A) (items B)))"
    and "iterates (set_xor (items B) (items A)) (iter' (set_xor (items B) (items A)))"
  shows "\<exists>result_set result_set'.
           compare iter self original_map_file current_map_file print_to_console
             = Inr result_set \<and>
           compare iter' self' current_map_file original_map_file print_to_console
             = Inr result_set' \<and>
           dom result_set = dom result_set' \<and>
           (\<forall>k v. A k = Some v \<and> B k = None \<longrightarrow>
              result_set k = Some v \<and> result_set' k = Some v) \<and>
           (\<forall>k v. B k = Some v \<and> A k = None \<longrightarrow>
              result_set k = Some v \<and> result_set' k = Some v) \<and>
           (\<forall>k a b. A k = Some a \<and> B k = Some b \<and> a \<noteq> b \<longrightarrow>
              (result_set k = Some a \<or> result_set k = Some b) \<and>
              (result_set' k = Some a \<or> result_set' k = Some b))"
proof -
  let ?xs = "iter (set_xor (items A) (items B))"
  let ?ys = "iter' (set_xor (items B) (items A))"
  have r: "compare iter self original_map_file current_map_file print_to_console
             = Inr (map_of ?xs)"
    using assms(1,2) by (rule compare_Inr)
  have r': "compare iter' self' current_map_file original_map_file print_to_console
             = Inr (map_of ?ys)"
    using assms(3,4) by (rule compare_Inr)
  have "dom (map_of ?xs) = dom (map_of ?ys)"
    using iteration_dom [OF assms(5)] iteration_dom [OF assms(6)] by auto
  moreover have "\<forall>k v. A k = Some v \<and> B k = None \<longrightarrow>
      map_of ?xs k = Some v \<and> map_of ?ys k = Some v"
    using iteration_lookup_original_only [OF assms(5)]
      iteration_lookup_current_only [OF assms(6)] by blast
  moreover have "\<forall>k v. B k = Some v \<and> A k = None \<longrightarrow>
      map_of ?xs k = Some v \<and> map_of ?ys k = Some v"
    using iteration_lookup_current_only [OF assms(5)]
      iteration_lookup_original_only [OF assms(6)] by blast
  moreover have "\<forall>k a b. A k = Some a \<and> B k = Some b \<and> a \<noteq> b \<longrightarrow>
      (map_of ?xs k = Some a \<or> map_of ?xs k = Some b) \<and>
      (map_of ?ys k = Some a \<or> map_of ?ys k = Some b)"
  proof (intro allI impI)
    fix k a b
    assume h: "A k = Some a \<and> B k = Some b \<and> a \<noteq> b"
    then have "map_of ?xs k = Some a \<or> map_of ?xs k = Some b"
      using iteration_lookup_both [OF assms(5), of k a b] by simp
    moreover have "map_of ?ys k = Some b \<or> map_of ?ys k = Some a"
      using h iteration_lookup_both [OF assms(6), of k b a] by auto
    ultimately show "(map_of ?xs k = Some a \<or> map_of ?xs k = Some b) \<and>
      (map_of ?ys k = Some a \<or> map_of ?ys k = Some b)" by blast
  qed
  ultimately show ?thesis using r r' by blast
qed

text \<open>
  The theorem at two maps with a changed key and a key of the first map only.
\<close>

theorem compare_swap_directions_witness:
  "\<exists>result_set result_set'.
     compare (\<lambda>S. [(''/a|'', ''1''), (''/a|'', ''2''), (''/b|'', ''3'')])
       \<lparr>original_map = Some [''/a|'' \<mapsto> ''1'', ''/b|'' \<mapsto> ''3''],
        current_map = Some [''/a|'' \<mapsto> ''2''], found_data = None\<rparr>
       ''a.map'' ''b.map'' False = Inr result_set \<and>
     compare (\<lambda>S. [(''/b|'', ''3''), (''/a|'', ''2''), (''/a|'', ''1'')])
       \<lparr>original_map = Some [''/a|'' \<mapsto> ''2''],
        current_map = Some [''/a|'' \<mapsto> ''1'', ''/b|'' \<mapsto> ''3''], found_data = None\<rparr>
       ''b.map'' ''a.map'' False = Inr result_set' \<and>
     dom result_set = dom result_set' \<and>
     result_set ''/b|'' = Some ''3'' \<and> result_set' ''/b|'' = Some ''3''"
proof -
  let ?A = "[''/a|'' \<mapsto> ''1'', ''/b|'' \<mapsto> ''3'']"
  let ?B = "[''/a|'' \<mapsto> ''2'']"
  let ?self = "\<lparr>original_map = Some ?A, current_map = Some ?B, found_data = None\<rparr>"
  let ?self' = "\<lparr>original_map = Some ?B, current_map = Some ?A, found_data = None\<rparr>"
  let ?iter = "\<lambda>S :: (string \<times> string) set. [(''/a|'', ''1''), (''/a|'', ''2''), (''/b|'', ''3'')]"
  let ?iter' = "\<lambda>S :: (string \<times> string) set. [(''/b|'', ''3''), (''/a|'', ''2''), (''/a|'', ''1'')]"
  have it: "iterates (set_xor (items ?A) (items ?B)) (?iter (set_xor (items ?A) (items ?B)))"
    by (auto simp: iterates_def in_set_xor_items split: if_splits)
  have it': "iterates (set_xor (items ?B) (items ?A)) (?iter' (set_xor (items ?B) (items ?A)))"
    by (auto simp: iterates_def in_set_xor_items split: if_splits)
  have b: "?A ''/b|'' = Some ''3'' \<and> ?B ''/b|'' = None" by simp
  from compare_swap_directions [of ?self ?A ?B ?self' ?iter ?iter'
      "''a.map''" "''b.map''" False, OF _ _ _ _ it it']
  obtain result_set result_set' where
    r: "compare ?iter ?self ''a.map'' ''b.map'' False = Inr result_set"
    and r': "compare ?iter' ?self' ''b.map'' ''a.map'' False = Inr result_set'"
    and d: "dom result_set = dom result_set'"
    and o: "\<forall>k v. ?A k = Some v \<and> ?B k = None \<longrightarrow>
       result_set k = Some v \<and> result_set' k = Some v"
    by auto
  have "result_set ''/b|'' = Some ''3'' \<and> result_set' ''/b|'' = Some ''3''"
    using o b by blast
  then show ?thesis using r r' d by blast
qed

text \<open>
  The claim as stated fails: the same list is an iteration of the symmetric difference
  in both directions, and with it both directions give the same result, the value
  \<^verbatim>\<open>1\<close> for the changed key: nothing is swapped.
\<close>

theorem compare_swap_directions_counterexample:
  "iterates (set_xor (items [''/a|'' \<mapsto> ''1'']) (items [''/a|'' \<mapsto> ''2'']))
     [(''/a|'', ''1''), (''/a|'', ''2'')] \<and>
   iterates (set_xor (items [''/a|'' \<mapsto> ''2'']) (items [''/a|'' \<mapsto> ''1'']))
     [(''/a|'', ''1''), (''/a|'', ''2'')] \<and>
   compare (\<lambda>S. [(''/a|'', ''1''), (''/a|'', ''2'')])
     \<lparr>original_map = Some [''/a|'' \<mapsto> ''1''],
      current_map = Some [''/a|'' \<mapsto> ''2''], found_data = None\<rparr>
     ''a.map'' ''b.map'' False = Inr [''/a|'' \<mapsto> ''1''] \<and>
   compare (\<lambda>S. [(''/a|'', ''1''), (''/a|'', ''2'')])
     \<lparr>original_map = Some [''/a|'' \<mapsto> ''2''],
      current_map = Some [''/a|'' \<mapsto> ''1''], found_data = None\<rparr>
     ''b.map'' ''a.map'' False = Inr [''/a|'' \<mapsto> ''1'']"
proof -
  have ne: "''1'' \<noteq> ''2''" and ne': "''2'' \<noteq> ''1''" by simp_all
  show ?thesis
    using iterates_pair_changed(1) [OF ne, of "''/a|''"]
      iterates_pair_changed(2) [OF ne', of "''/a|''"]
    by (simp add: compare_def)
qed

subsection \<open>C6: the key and the value of a line\<close>

text \<open>
  Claim C6: for every line, parsing splits at the last \<^verbatim>\<open>>\<close> to get the record body,
  splits the body at \<^verbatim>\<open>|\<close>, stores as key the first field, trimmed, with the delimiter
  appended, and stores as value the remaining fields (without the key field), joined with
  \<^verbatim>\<open>|\<close> and trimmed, the key text being taken away at the front of the value only.

  Line 82 aims at this value: it joins all fields, trims, and drops the leading key field
  with \<^verbatim>\<open>replace(current_file_name, "")\<close>; \<^verbatim>\<open>_scan\<close> (lines 224 to 227) then reads the
  stored value as the data fields, the checksum last. But \<^verbatim>\<open>replace\<close> is not tied to the
  front of the string, so the code misses the claim by a slip. The theorem evaluates the
  code (\<open>build_entry\<close>) and the words of the claim (\<open>spec_entry\<close>) at four lines. At
  the first line both give the same entry. At the second the key text stands in a later
  field too and is removed there as well, which joins two fields. At the third the first
  field ends with a space, the trimmed key does not occur in the joined fields, and the key
  field stays in the value. At the fourth the key \<^verbatim>\<open>0|\<close> occurs at the end of the size
  field, and the size and the checksum are merged.
\<close>

theorem build_entry_key_field_slip:
  "build_entry (''2021-01-01 > /etc/hosts|4096|d41d'' @ [CHR 0x0A])
     = Inr (''/etc/hosts|'', ''4096|d41d'') \<and>
   spec_entry (''2021-01-01 > /etc/hosts|4096|d41d'' @ [CHR 0x0A])
     = (''/etc/hosts|'', ''4096|d41d'') \<and>
   build_entry (''2021-01-01 > /a|10|/a|abc'' @ [CHR 0x0A]) = Inr (''/a|'', ''10|abc'') \<and>
   spec_entry (''2021-01-01 > /a|10|/a|abc'' @ [CHR 0x0A]) = (''/a|'', ''10|/a|abc'') \<and>
   build_entry (''2021-01-01 > /a |10'' @ [CHR 0x0A]) = Inr (''/a|'', ''/a |10'') \<and>
   spec_entry (''2021-01-01 > /a |10'' @ [CHR 0x0A]) = (''/a|'', ''10'') \<and>
   build_entry (''2021-01-01 > 0|4090|abc'' @ [CHR 0x0A]) = Inr (''0|'', ''409abc'') \<and>
   spec_entry (''2021-01-01 > 0|4090|abc'' @ [CHR 0x0A]) = (''0|'', ''4090|abc'')"
  by (simp add: build_entry_def spec_entry_def str_strip_def isspace_def)

subsection \<open>C7: a line without a separator\<close>

text \<open>
  Claim C7 says that a line without \<^verbatim>\<open>>\<close>, or with an empty key, is malformed, that
  its entry is left out by default, and that a strict mode ends the parsing with the line
  number. The code has neither: reading a text file never ends with an error, and every
  line stores its entry. The key of a line is always the trimmed first field of the body
  with the delimiter appended (the delimiter alone when that field is empty), and a line
  without \<^verbatim>\<open>>\<close> is its own body. The map has a value under the key of every line: the
  value that \<^verbatim>\<open>_build_map\<close> computes for a line with that key, and the value of the line
  itself when no later line has the same key. Every entry of the map is the entry of a
  line.
\<close>

theorem build_map_stores_every_line:
  assumes "fs filename = Some (TextFile lines)" and "line \<in> set lines"
  shows "\<exists>hash_map v. build_map fs filename = Some hash_map \<and>
           build_entry line =
             Inr (str_strip (hd (str_split CHR ''|'' (last (str_split CHR ''>'' line)))) @ ''|'', v) \<and>
           (CHR ''>'' \<notin> set line \<longrightarrow> last (str_split CHR ''>'' line) = line) \<and>
           (\<exists>l v'. l \<in> set lines \<and>
              build_entry l =
                Inr (str_strip (hd (str_split CHR ''|'' (last (str_split CHR ''>'' line)))) @ ''|'', v') \<and>
              hash_map (str_strip (hd (str_split CHR ''|'' (last (str_split CHR ''>'' line)))) @ ''|'')
                = Some v') \<and>
           (\<forall>before after.
              lines = before @ line # after \<and>
              (\<forall>l \<in> set after. \<forall>v'. build_entry l \<noteq>
                 Inr (str_strip (hd (str_split CHR ''|'' (last (str_split CHR ''>'' line)))) @ ''|'', v'))
              \<longrightarrow>
              hash_map (str_strip (hd (str_split CHR ''|'' (last (str_split CHR ''>'' line)))) @ ''|'')
                = Some v) \<and>
           (\<forall>k' v'. hash_map k' = Some v' \<longrightarrow> (\<exists>l \<in> set lines. build_entry l = Inr (k', v')))"
proof -
  let ?k = "str_strip (hd (str_split CHR ''|'' (last (str_split CHR ''>'' line)))) @ ''|''"
  let ?v = "str_replace ?k [] (str_strip (last (str_split CHR ''>'' line)))"
  have e: "build_entry line = Inr (?k, ?v)" by (rule build_entry_body)
  obtain hash_map where l: "build_loop lines Map.empty = Inr hash_map"
    and d: "dom hash_map = dom (Map.empty :: hash_map) \<union>
              {k. \<exists>l \<in> set lines. \<exists>v. build_entry l = Inr (k, v)}"
    using build_loop_total [of lines Map.empty] by blast
  have m: "build_map fs filename = Some hash_map"
    using assms(1) l by (simp add: build_map_def)
  have w: "CHR ''>'' \<notin> set line \<longrightarrow> last (str_split CHR ''>'' line) = line"
    by (simp add: last_str_split_id)
  have origin: "\<exists>l \<in> set lines. build_entry l = Inr (k', v')" if "hash_map k' = Some v'" for k' v'
    using build_loop_origin [OF l that] by simp
  have "?k \<in> dom hash_map" using d e assms(2) by blast
  then obtain v' where s: "hash_map ?k = Some v'" by blast
  then obtain l' where "l' \<in> set lines" and "build_entry l' = Inr (?k, v')"
    using origin by blast
  then have some: "\<exists>l v'. l \<in> set lines \<and> build_entry l = Inr (?k, v') \<and> hash_map ?k = Some v'"
    using s by blast
  have lastw: "\<forall>before after.
      lines = before @ line # after \<and>
      (\<forall>l \<in> set after. \<forall>v'. build_entry l \<noteq> Inr (?k, v')) \<longrightarrow> hash_map ?k = Some ?v"
    using l e build_loop_last_line by blast
  from m e w some lastw origin show ?thesis by blast
qed

text \<open>
  The theorem at the two lines of a file: the first has no \<^verbatim>\<open>>\<close>, the second an
  empty first field.
\<close>

theorem build_map_stores_every_line_witness:
  "\<exists>hash_map.
     build_map [''current.map'' \<mapsto> TextFile [''/a|1'', ''2021-01-01 > |3'']] ''current.map''
       = Some hash_map \<and>
     build_entry ''/a|1'' = Inr (''/a|'', ''1'') \<and> hash_map ''/a|'' = Some ''1'' \<and>
     build_entry ''2021-01-01 > |3'' = Inr (''|'', ''3'') \<and> hash_map ''|'' = Some ''3'' \<and>
     (\<exists>l \<in> set [''/a|1'', ''2021-01-01 > |3'']. build_entry l = Inr (''|'', ''3''))"
proof -
  let ?lines = "[''/a|1'', ''2021-01-01 > |3'']"
  let ?fs = "[''current.map'' \<mapsto> TextFile ?lines]"
  have f: "?fs ''current.map'' = Some (TextFile ?lines)" by simp
  have l: "''/a|1'' \<in> set ?lines" and l': "''2021-01-01 > |3'' \<in> set ?lines" by simp_all
  have g: "CHR ''>'' \<notin> set ''/a|1''" by simp
  have k: "str_strip (hd (str_split CHR ''|'' ''/a|1'')) @ ''|'' = ''/a|''"
    by (simp add: str_strip_def isspace_def)
  have k': "str_strip (hd (str_split CHR ''|'' (last (str_split CHR ''>'' ''2021-01-01 > |3''))))
              @ ''|'' = ''|''"
    by (simp add: str_strip_def isspace_def)
  have e1: "build_entry ''/a|1'' = Inr (''/a|'', ''1'')"
    by (simp add: build_entry_def str_strip_def isspace_def)
  have e2: "build_entry ''2021-01-01 > |3'' = Inr (''|'', ''3'')"
    by (simp add: build_entry_def str_strip_def isspace_def)
  from build_map_stores_every_line [of ?fs "''current.map''" ?lines "''/a|1''", OF f l]
  obtain hash_map v where
    m: "build_map ?fs ''current.map'' = Some hash_map"
    and e: "build_entry ''/a|1'' =
              Inr (str_strip (hd (str_split CHR ''|'' (last (str_split CHR ''>'' ''/a|1'')))) @ ''|'', v)"
    and w: "CHR ''>'' \<notin> set ''/a|1'' \<longrightarrow> last (str_split CHR ''>'' ''/a|1'') = ''/a|1''"
    and s: "\<forall>before after.
              ?lines = before @ ''/a|1'' # after \<and>
              (\<forall>l \<in> set after. \<forall>v'. build_entry l \<noteq>
                 Inr (str_strip (hd (str_split CHR ''|'' (last (str_split CHR ''>'' ''/a|1'')))) @ ''|'', v'))
              \<longrightarrow>
              hash_map (str_strip (hd (str_split CHR ''|'' (last (str_split CHR ''>'' ''/a|1'')))) @ ''|'')
                = Some v"
    by blast
  from w g have b: "last (str_split CHR ''>'' ''/a|1'') = ''/a|1''" by blast
  have v: "v = ''1''" using e e1 by simp
  have "?lines = [] @ ''/a|1'' # [''2021-01-01 > |3''] \<and>
        (\<forall>l \<in> set [''2021-01-01 > |3'']. \<forall>v'. build_entry l \<noteq> Inr (''/a|'', v'))"
    using e2 by simp
  then have a: "hash_map ''/a|'' = Some ''1''"
    using s [rule_format, of "[]" "[''2021-01-01 > |3'']"] b k v by simp
  from build_map_stores_every_line [of ?fs "''current.map''" ?lines "''2021-01-01 > |3''", OF f l']
  obtain hash_map' v' where
    m': "build_map ?fs ''current.map'' = Some hash_map'"
    and e': "build_entry ''2021-01-01 > |3'' =
              Inr (str_strip (hd (str_split CHR ''|''
                     (last (str_split CHR ''>'' ''2021-01-01 > |3'')))) @ ''|'', v')"
    and s': "\<forall>before after.
              ?lines = before @ ''2021-01-01 > |3'' # after \<and>
              (\<forall>l \<in> set after. \<forall>v''. build_entry l \<noteq>
                 Inr (str_strip (hd (str_split CHR ''|''
                        (last (str_split CHR ''>'' ''2021-01-01 > |3'')))) @ ''|'', v''))
              \<longrightarrow>
              hash_map' (str_strip (hd (str_split CHR ''|''
                        (last (str_split CHR ''>'' ''2021-01-01 > |3'')))) @ ''|'')
                = Some v'"
    and o': "\<forall>k' v''. hash_map' k' = Some v'' \<longrightarrow>
               (\<exists>l \<in> set ?lines. build_entry l = Inr (k', v''))"
    by blast
  from m m' have same: "hash_map' = hash_map" by simp
  have v': "v' = ''3''" using e' e2 by simp
  have "?lines = [''/a|1''] @ ''2021-01-01 > |3'' # [] \<and>
        (\<forall>l \<in> set []. \<forall>v''. build_entry l \<noteq> Inr (''|'', v''))"
    by simp
  then have c: "hash_map ''|'' = Some ''3''"
    using s' [rule_format, of "[''/a|1'']" "[]"] k' v' same by simp
  have "\<exists>l \<in> set ?lines. build_entry l = Inr (''|'', ''3'')"
    using o' [rule_format, of "''|''" "''3''"] c same by simp
  with m e1 a e2 c show ?thesis by blast
qed

text \<open>
  The claim as stated fails: the first line has no \<^verbatim>\<open>>\<close> and the third has an empty
  key; both are stored.
\<close>

theorem build_map_stores_every_line_counterexample:
  "build_map [''current.map'' \<mapsto> TextFile [''/a|1'' @ [CHR 0x0A],
                                               ''2021-01-01 > /b|2'' @ [CHR 0x0A],
                                               ''2021-01-01 > |3'' @ [CHR 0x0A]]]
     ''current.map''
   = Some [''/a|'' \<mapsto> ''1'', ''/b|'' \<mapsto> ''2'', ''|'' \<mapsto> ''3'']"
  by (simp add: build_map_def build_entry_def str_strip_def isspace_def)

subsection \<open>C8: blank lines\<close>

text \<open>
  Claim C8 says that blank lines are skipped. They are not: a line of whitespace only
  has the entry with the key \<^verbatim>\<open>|\<close> and the empty value, and the map of a file with
  such a line has the key \<^verbatim>\<open>|\<close>.
\<close>

theorem build_map_blank_line:
  assumes "fs filename = Some (TextFile lines)" and "line \<in> set lines"
    and "\<forall>c \<in> set line. isspace c"
  shows "build_entry line = Inr (''|'', []) \<and>
         (\<exists>hash_map. build_map fs filename = Some hash_map \<and> ''|'' \<in> dom hash_map)"
proof -
  have gt: "CHR ''>'' \<notin> set line" and bar: "CHR ''|'' \<notin> set line"
    using assms(3) isspace_not_separator by blast+
  have e: "build_entry line = Inr (''|'', [])"
    using gt bar assms(3)
    by (simp add: build_entry_body last_str_split_id str_strip_blank)
  obtain hash_map where l: "build_loop lines Map.empty = Inr hash_map"
    and d: "dom hash_map = dom (Map.empty :: hash_map) \<union> {k. \<exists>l \<in> set lines. \<exists>v. build_entry l = Inr (k, v)}"
    using build_loop_total [of lines Map.empty] by blast
  have "build_map fs filename = Some hash_map"
    using assms(1) l by (simp add: build_map_def)
  moreover have "''|'' \<in> dom hash_map"
    using d e assms(2) by blast
  ultimately show ?thesis using e by blast
qed

text \<open>
  The theorem at a file with a line that is a line feed only.
\<close>

theorem build_map_blank_line_witness:
  "build_entry [CHR 0x0A] = Inr (''|'', []) \<and>
   (\<exists>hash_map.
      build_map [''current.map'' \<mapsto> TextFile [''2021-01-01 > /a|1'' @ [CHR 0x0A], [CHR 0x0A]]]
        ''current.map'' = Some hash_map \<and>
      ''|'' \<in> dom hash_map)"
proof -
  let ?lines = "[''2021-01-01 > /a|1'' @ [CHR 0x0A], [CHR 0x0A]]"
  let ?fs = "[''current.map'' \<mapsto> TextFile ?lines]"
  have f: "?fs ''current.map'' = Some (TextFile ?lines)" by simp
  have l: "[CHR 0x0A] \<in> set ?lines" by simp
  have b: "\<forall>c \<in> set [CHR 0x0A]. isspace c" by (simp add: isspace_def)
  from build_map_blank_line [of ?fs "''current.map''" ?lines "[CHR 0x0A]", OF f l b]
  show ?thesis .
qed

text \<open>
  The claim as stated fails: the blank line between the two records is stored.
\<close>

theorem build_map_blank_line_counterexample:
  "build_map [''current.map'' \<mapsto> TextFile [''2021-01-01 > /a|1'' @ [CHR 0x0A],
                                               [CHR 0x0A],
                                               ''2021-01-01 > /b|2'' @ [CHR 0x0A]]]
     ''current.map''
   = Some [''/a|'' \<mapsto> ''1'', ''|'' \<mapsto> [], ''/b|'' \<mapsto> ''2'']"
  by (simp add: build_map_def build_entry_def str_strip_def isspace_def)

subsection \<open>C9: a path that does not exist\<close>

text \<open>
  Claim C9: when a path does not exist, parsing fails with the error that the
  specification calls NotFound and gives no map. In the code the constructor of the
  analyzer looks both paths up before it reads any file; for a missing path (the original
  or the current one) it logs an error and ends with \<^verbatim>\<open>sys.exit(2)\<close>, so no analyzer
  and no map exist afterwards. \<^verbatim>\<open>_build_map\<close> on its own returns no map for a missing
  path either.
\<close>

theorem init_missing_path:
  assumes "fs path = None"
  shows "Analyzer_init fs path other = Inl (SystemExit 2) \<and>
         Analyzer_init fs other path = Inl (SystemExit 2) \<and>
         build_map fs path = None"
  using assms by (simp add: Analyzer_init_def os_path_exists_def build_map_def)

text \<open>
  The theorem at a file system that has the current map file only.
\<close>

theorem init_missing_path_witness:
  "Analyzer_init [''current.map'' \<mapsto> TextFile [''2021-01-01 > /a|1'']]
     ''original.map'' ''current.map'' = Inl (SystemExit 2) \<and>
   Analyzer_init [''current.map'' \<mapsto> TextFile [''2021-01-01 > /a|1'']]
     ''current.map'' ''original.map'' = Inl (SystemExit 2) \<and>
   build_map [''current.map'' \<mapsto> TextFile [''2021-01-01 > /a|1'']] ''original.map'' = None"
proof -
  let ?fs = "[''current.map'' \<mapsto> TextFile [''2021-01-01 > /a|1'']]"
  have absent: "?fs ''original.map'' = None" by simp
  from init_missing_path [of ?fs "''original.map''" "''current.map''", OF absent]
  show ?thesis .
qed

subsection \<open>C10: the arguments of compare\<close>

text \<open>
  Claim C10: the result of \<^verbatim>\<open>compare\<close> does not depend on its arguments
  \<^verbatim>\<open>original_map_file\<close>, \<^verbatim>\<open>current_map_file\<close> and \<^verbatim>\<open>print_to_console\<close>: for
  every analyzer, and the same iteration order, two choices of the three arguments give
  the same result.
\<close>

theorem compare_ignores_arguments:
  "compare iter self original_map_file current_map_file print_to_console =
   compare iter self original_map_file' current_map_file' print_to_console'"
  by (simp add: compare_def)

end
